theory Spec2Isabelle
  imports Complex_Main "HOL-Library.Word" "HOL-Library.Multiset"
begin

unbundle bit_operations_syntax

section \<open>Strings and regular expressions of the runtime\<close>

text \<open>
  Strings are lists of code units; the model covers the code units below 256, which is
  enough for every identifier the helpers below accept (digits, hex digits, hyphen and
  the ASCII letters of \<^verbatim>\<open>manifesto-\<close>).
\<close>

definition isDigit :: "char \<Rightarrow> bool" where
  \<comment> \<open>the class \<^verbatim>\<open>\d\<close>\<close>
  "isDigit c = (c \<in> set ''0123456789'')"

definition isHex :: "char \<Rightarrow> bool" where
  \<comment> \<open>the class \<^verbatim>\<open>[0-9a-f]\<close> under the flag \<^verbatim>\<open>i\<close>\<close>
  "isHex c = (c \<in> set ''0123456789abcdefABCDEF'')"

definition isVersionDigit :: "char \<Rightarrow> bool" where
  \<comment> \<open>the class \<^verbatim>\<open>[1-5]\<close>\<close>
  "isVersionDigit c = (c \<in> set ''12345'')"

definition isVariantDigit :: "char \<Rightarrow> bool" where
  \<comment> \<open>the class \<^verbatim>\<open>[89ab]\<close> under the flag \<^verbatim>\<open>i\<close>\<close>
  "isVariantDigit c = (c \<in> set ''89abAB'')"

definition isHyphen :: "char \<Rightarrow> bool" where
  "isHyphen c = (c = CHR ''-'')"

definition testClasses :: "(char \<Rightarrow> bool) list \<Rightarrow> string \<Rightarrow> bool" where
  \<comment> \<open>\<^verbatim>\<open>regex.test\<close> for an anchored regular expression that is a sequence of
      character classes: one character per class, nothing before or after\<close>
  "testClasses cls s = list_all2 (\<lambda>p c. p c) cls s"

definition substring :: "string \<Rightarrow> nat \<Rightarrow> nat \<Rightarrow> string" where
  \<comment> \<open>\<^verbatim>\<open>s.substring(a, b)\<close>: both ends are clamped to the length and swapped when
      they are out of order\<close>
  "substring s a b =
     (let a' = min a (length s); b' = min b (length s);
          lo = min a' b'; hi = max a' b'
      in take (hi - lo) (drop lo s))"

definition padStart :: "string \<Rightarrow> nat \<Rightarrow> char \<Rightarrow> string" where
  "padStart s n c = replicate (n - length s) c @ s"

definition padEnd :: "string \<Rightarrow> nat \<Rightarrow> char \<Rightarrow> string" where
  "padEnd s n c = s @ replicate (n - length s) c"

fun replace_str :: "string \<Rightarrow> string \<Rightarrow> string \<Rightarrow> string" where
  \<comment> \<open>\<^verbatim>\<open>s.replace(pat, rep)\<close> with a string pattern: the first occurrence only\<close>
  "replace_str pat rep [] = (if pat = [] then rep else [])"
| "replace_str pat rep (c # cs) =
     (if take (length pat) (c # cs) = pat then rep @ drop (length pat) (c # cs)
      else c # replace_str pat rep cs)"

definition hexDigit :: "nat \<Rightarrow> char" where
  "hexDigit d = ''0123456789abcdef'' ! d"

function toString16 :: "nat \<Rightarrow> string" where
  \<comment> \<open>\<^verbatim>\<open>n.toString(16)\<close> for a non-negative integer\<close>
  "toString16 n =
     (if n < 16 then [hexDigit n] else toString16 (n div 16) @ [hexDigit (n mod 16)])"
  by pat_completeness auto
termination
proof (relation "measure (\<lambda>n. n)")
  show "wf (measure (\<lambda>n. n))" by simp
next
  fix n :: nat
  assume "\<not> n < 16"
  then have "n div 16 < n" by simp
  then show "(n div 16, n) \<in> measure (\<lambda>n. n)" by simp
qed

declare toString16.simps [simp del]

section \<open>Identifier helpers\<close>

definition uuidRegex :: "(char \<Rightarrow> bool) list" where
  "uuidRegex =
     replicate 8 isHex @ [isHyphen] @ replicate 4 isHex @ [isHyphen]
     @ [isVersionDigit] @ replicate 3 isHex @ [isHyphen]
     @ [isVariantDigit] @ replicate 3 isHex @ [isHyphen] @ replicate 12 isHex"

definition isValidUUID :: "string \<Rightarrow> bool" where
  "isValidUUID uuid = testClasses uuidRegex uuid"

definition isManifestoFormat :: "string \<Rightarrow> bool" where
  \<comment> \<open>\<^verbatim>\<open>/^manifesto-\d+$/\<close>\<close>
  "isManifestoFormat ident =
     (take 10 ident = ''manifesto-'' \<and> drop 10 ident \<noteq> [] \<and> list_all isDigit (drop 10 ident))"

definition isRawInteger :: "string \<Rightarrow> bool" where
  \<comment> \<open>\<^verbatim>\<open>/^\d+$/\<close>\<close>
  "isRawInteger ident = (ident \<noteq> [] \<and> list_all isDigit ident)"

definition toManifestoFormat :: "string \<Rightarrow> string" where
  "toManifestoFormat ident = (if isRawInteger ident then ''manifesto-'' @ ident else ident)"

fun hashLoop :: "32 word \<Rightarrow> string \<Rightarrow> 32 word" where
  \<comment> \<open>the loop over \<^verbatim>\<open>seedString\<close>; \<^verbatim>\<open>hash & hash\<close> brings the number back to a signed
      32-bit integer after each step, which is the wrap-around of the word type\<close>
  "hashLoop hash [] = hash"
| "hashLoop hash (c # cs) = hashLoop (push_bit 5 hash - hash + of_nat (of_char c)) cs"

definition generateDeterministicUUID :: "string \<Rightarrow> string" where
  "generateDeterministicUUID manifestoId =
     (let seedString = ''agenda-'' @ manifestoId;
          hash = hashLoop 0 seedString;
          positiveHash = nat \<bar>sint hash\<bar>;
          hex = padStart (toString16 positiveHash) 8 (CHR ''0'');
          manifestoNumber = padStart (replace_str ''manifesto-'' [] manifestoId) 4 (CHR ''0'');
          tail3 = substring hex 8 11
      in substring hex 0 8 @ ''-'' @ manifestoNumber @ ''-4000-8''
         @ (if tail3 = [] then ''000'' else tail3) @ ''-''
         @ padEnd (substring hex 0 12) 12 (CHR ''0''))"

section \<open>Array sorting of the runtime\<close>

text \<open>
  \<^verbatim>\<open>Array.prototype.sort(compare)\<close> is stable, and with a consistent comparator its result
  is the one ordered arrangement that keeps equal elements in their input order. The
  model is the stable insertion sort: an element goes in front of the first element it
  does not have to follow (\<open>compare x y \<le> 0\<close>).
\<close>

fun insert_cmp :: "('a \<Rightarrow> 'a \<Rightarrow> int) \<Rightarrow> 'a \<Rightarrow> 'a list \<Rightarrow> 'a list" where
  "insert_cmp compare x [] = [x]"
| "insert_cmp compare x (y # ys) =
     (if compare x y \<le> 0 then x # y # ys else y # insert_cmp compare x ys)"

definition array_sort :: "('a \<Rightarrow> 'a \<Rightarrow> int) \<Rightarrow> 'a list \<Rightarrow> 'a list" where
  "array_sort compare xs = foldr (insert_cmp compare) xs []"

section \<open>Suggestion list: optimistic voting and sorting\<close>

datatype vote = Like | Dislike

record counts =
  likes :: int
  dislikes :: int

record vote_state =
  userVotes :: "string \<Rightarrow> vote option"
  voteCounts :: "string \<Rightarrow> counts option"

text \<open>
  \<open>userVotes\<close> maps a suggestion id to \<open>None\<close> where the source holds \<^verbatim>\<open>null\<close> or has no
  entry. The function below is \<^verbatim>\<open>handleVote\<close> up to the two state updates it makes before
  the request is sent; \<open>user\<close> tells whether a user is logged in (without one the handler
  redirects to the login page and changes nothing).
\<close>

definition currentCounts :: "vote_state \<Rightarrow> string \<Rightarrow> counts" where
  \<comment> \<open>\<^verbatim>\<open>voteCounts[id] || { likes: 0, dislikes: 0 }\<close>\<close>
  "currentCounts st ident =
     (case voteCounts st ident of None \<Rightarrow> \<lparr>likes = 0, dislikes = 0\<rparr> | Some c \<Rightarrow> c)"

definition handleVote :: "bool \<Rightarrow> string \<Rightarrow> vote \<Rightarrow> vote_state \<Rightarrow> vote_state" where
  "handleVote user ident vtype st =
     (if \<not> user then st
      else
        let currentVote = userVotes st ident;
            cur = currentCounts st ident;
            (newVote, l, d) =
              (if currentVote = Some vtype then
                 (None,
                  if vtype = Like then likes cur - 1 else likes cur,
                  if vtype = Like then dislikes cur else dislikes cur - 1)
               else
                 (let l1 = (if currentVote = Some Like then likes cur - 1 else likes cur);
                      d1 = (if currentVote = Some Like then dislikes cur
                            else if currentVote = Some Dislike then dislikes cur - 1
                            else dislikes cur)
                  in (Some vtype,
                      if vtype = Like then l1 + 1 else l1,
                      if vtype = Like then d1 else d1 + 1)))
        in st\<lparr>userVotes := (userVotes st)(ident := newVote),
               voteCounts := (voteCounts st)(ident := Some \<lparr>likes = max 0 l, dislikes = max 0 d\<rparr>)\<rparr>)"

definition countOf :: "vote \<Rightarrow> counts \<Rightarrow> int" where
  "countOf v c = (case v of Like \<Rightarrow> likes c | Dislike \<Rightarrow> dislikes c)"

definition opposite :: "vote \<Rightarrow> vote" where
  "opposite v = (case v of Like \<Rightarrow> Dislike | Dislike \<Rightarrow> Like)"

record suggestion =
  suggestion_id :: string
  content :: string
  author_name :: string
  created_at :: int
  user_id :: string

record suggestion_with_score = suggestion +
  s_likes :: int
  s_dislikes :: int
  netScore :: int
  totalEngagement :: int

datatype sort_mode = Popularity | Newest | Oldest

text \<open>
  \<open>created_at\<close> stands for the time value \<^verbatim>\<open>new Date(created_at).getTime()\<close> of the
  timestamp string.
\<close>

definition withScore :: "(string \<Rightarrow> counts option) \<Rightarrow> suggestion \<Rightarrow> suggestion_with_score" where
  "withScore vc s =
     (let l = (case vc (suggestion_id s) of None \<Rightarrow> 0 | Some c \<Rightarrow> likes c);
          d = (case vc (suggestion_id s) of None \<Rightarrow> 0 | Some c \<Rightarrow> dislikes c)
      in suggestion.extend s
           \<lparr>s_likes = l, s_dislikes = d, netScore = l - d, totalEngagement = l + d\<rparr>)"

definition compareSuggestions ::
  "sort_mode \<Rightarrow> suggestion_with_score \<Rightarrow> suggestion_with_score \<Rightarrow> int" where
  "compareSuggestions sortBy a b =
     (case sortBy of
        Popularity \<Rightarrow>
          if netScore a \<noteq> netScore b then netScore b - netScore a
          else totalEngagement b - totalEngagement a
      | Newest \<Rightarrow> created_at b - created_at a
      | Oldest \<Rightarrow> created_at a - created_at b)"

definition sortedSuggestions ::
  "sort_mode \<Rightarrow> (string \<Rightarrow> counts option) \<Rightarrow> suggestion list \<Rightarrow> suggestion_with_score list" where
  "sortedSuggestions sortBy vc suggestions =
     array_sort (compareSuggestions sortBy) (map (withScore vc) suggestions)"

section \<open>Manifesto list: sorting and shuffling\<close>

text \<open>
  The table of vote counts per manifesto id (\<^verbatim>\<open>voteCountsMap\<close>) is an input of the sort.
\<close>

definition itemScore :: "(string \<Rightarrow> counts option) \<Rightarrow> string \<Rightarrow> int" where
  \<comment> \<open>\<^verbatim>\<open>aVotes.likes - aVotes.dislikes\<close> with the default \<^verbatim>\<open>{ likes: 0, dislikes: 0 }\<close>\<close>
  "itemScore m ident = (case m ident of None \<Rightarrow> 0 | Some c \<Rightarrow> likes c - dislikes c)"

definition sortedData :: "('a \<Rightarrow> string) \<Rightarrow> (string \<Rightarrow> counts option) \<Rightarrow> 'a list \<Rightarrow> 'a list" where
  \<comment> \<open>\<open>item_id\<close> reads the \<^verbatim>\<open>id\<close> field of a manifesto item\<close>
  "sortedData item_id m filteredData =
     (if filteredData = [] then []
      else array_sort (\<lambda>a b. itemScore m (item_id b) - itemScore m (item_id a)) filteredData)"

text \<open>
  Numbers are doubles; every finite double is a real number. \<^verbatim>\<open>x % m\<close> and
  \<^verbatim>\<open>Math.floor\<close> are exact on doubles, the product \<^verbatim>\<open>randomSeed * 1000000\<close> is rounded:
  \<open>round_double\<close> is the rounding, a parameter of the model.
\<close>

definition jsRemainder :: "real \<Rightarrow> real \<Rightarrow> real" where
  \<comment> \<open>\<^verbatim>\<open>x % m\<close>: the quotient is truncated towards zero\<close>
  "jsRemainder x m =
     x - m * of_int (if 0 \<le> x / m then \<lfloor>x / m\<rfloor> else \<lceil>x / m\<rceil>)"

definition shuffleIndex :: "real \<Rightarrow> nat \<Rightarrow> int" where
  \<comment> \<open>\<^verbatim>\<open>Math.floor((randomSeed * 1000000) % m)\<close> for the product \<open>scaled\<close>\<close>
  "shuffleIndex scaled m = \<lfloor>jsRemainder scaled (real m)\<rfloor>"

fun shuffleLoop :: "real \<Rightarrow> nat \<Rightarrow> 'a list \<Rightarrow> 'a list option" where
  \<comment> \<open>\<^verbatim>\<open>while (m)\<close>: the index is computed with \<open>m\<close> before the decrement, the swap uses
      \<open>m\<close> after it. \<open>None\<close>: an index outside the array, where the source would leave
      the array with a hole or an extra property\<close>
  "shuffleLoop scaled 0 shuffled = Some shuffled"
| "shuffleLoop scaled (Suc m) shuffled =
     (let i = shuffleIndex scaled (Suc m)
      in if 0 \<le> i \<and> nat i < length shuffled \<and> m < length shuffled
         then shuffleLoop scaled m (shuffled[m := shuffled ! nat i, nat i := shuffled ! m])
         else None)"

definition shuffledData :: "(real \<Rightarrow> real) \<Rightarrow> real option \<Rightarrow> 'a list \<Rightarrow> 'a list option" where
  "shuffledData round_double randomSeed sorted_data =
     (case randomSeed of
        None \<Rightarrow> Some sorted_data
      | Some seed \<Rightarrow>
          if sorted_data = [] then Some sorted_data
          else shuffleLoop (round_double (seed * 1000000)) (length sorted_data) sorted_data)"

section \<open>Testimonials route: pagination\<close>

datatype jsnum = NaN | PosInfinity | NegInfinity | Finite real

definition Number_param :: "(string \<Rightarrow> jsnum) \<Rightarrow> string option \<Rightarrow> jsnum" where
  \<comment> \<open>\<^verbatim>\<open>Number(searchParams.get(name))\<close>: \<^verbatim>\<open>get\<close> gives \<^verbatim>\<open>null\<close> for an absent parameter
      and \<^verbatim>\<open>Number(null)\<close> is 0; \<open>toNumber\<close> is the runtime's conversion of a string\<close>
  "Number_param toNumber p = (case p of None \<Rightarrow> Finite 0 | Some s \<Rightarrow> toNumber s)"

definition DEFAULT_LIMIT :: real where
  "DEFAULT_LIMIT = 50"

definition effectiveLimit :: "jsnum \<Rightarrow> real" where
  "effectiveLimit limitParam =
     (case limitParam of
        Finite x \<Rightarrow> if x > 0 then min x 200 else DEFAULT_LIMIT
      | _ \<Rightarrow> DEFAULT_LIMIT)"

definition effectiveOffset :: "jsnum \<Rightarrow> real" where
  "effectiveOffset offsetParam =
     (case offsetParam of
        Finite x \<Rightarrow> if x \<ge> 0 then x else 0
      | _ \<Rightarrow> 0)"

definition queryRange :: "(string \<Rightarrow> jsnum) \<Rightarrow> string option \<Rightarrow> string option \<Rightarrow> real \<times> real" where
  \<comment> \<open>the two arguments of \<^verbatim>\<open>.range(offset, offset + limit - 1)\<close>\<close>
  "queryRange toNumber limitQ offsetQ =
     (let limit = effectiveLimit (Number_param toNumber limitQ);
          offset = effectiveOffset (Number_param toNumber offsetQ)
      in (offset, offset + limit - 1))"

definition finite_value :: "jsnum \<Rightarrow> real option" where
  \<comment> \<open>the value of a parameter that converts to a finite number\<close>
  "finite_value p = (case p of Finite x \<Rightarrow> Some x | _ \<Rightarrow> None)"

section \<open>Middleware\<close>

text \<open>
  The middleware reads two environment variables, asks the auth service for the user of
  the request and, for admin paths, reads the user's profile. The answers of the auth
  service and of the profile query are inputs of the model.
\<close>

record environment =
  supabaseUrl :: "string option"
  supabaseAnonKey :: "string option"

record middleware_request =
  pathname :: string
  session_user :: "string option"  \<comment> \<open>\<^verbatim>\<open>user\<close> of \<^verbatim>\<open>supabase.auth.getUser()\<close>, by id\<close>
  session_error :: bool  \<comment> \<open>\<^verbatim>\<open>error\<close> of the same call\<close>

datatype middleware_result = Forward | Reply nat string

definition unset :: "string option \<Rightarrow> bool" where
  \<comment> \<open>\<^verbatim>\<open>!value\<close> for an environment variable: undefined or empty\<close>
  "unset v = (case v of None \<Rightarrow> True | Some s \<Rightarrow> s = [])"

definition startsWith :: "string \<Rightarrow> string \<Rightarrow> bool" where
  "startsWith s p = (take (length p) s = p)"

definition middleware ::
  "environment \<Rightarrow> (string \<Rightarrow> string option) \<Rightarrow> middleware_request \<Rightarrow> middleware_result" where
  \<comment> \<open>\<open>profile_role\<close> is \<^verbatim>\<open>profile?.role\<close> of the profile row of a user id\<close>
  "middleware env profile_role req =
     (if unset (supabaseUrl env) \<or> unset (supabaseAnonKey env) then Forward
      else if startsWith (pathname req) ''/api/admin'' then
        (case (session_error req, session_user req) of
           (False, Some uid) \<Rightarrow>
             if profile_role uid \<noteq> Some ''admin'' then Reply 403 ''Forbidden'' else Forward
         | _ \<Rightarrow> Reply 401 ''Unauthorized'')
      else Forward)"

section \<open>Suggestions route\<close>

subsection \<open>Values of a request body\<close>

text \<open>
  A field of the parsed body is a string or some other value (absent, null, a boolean, a
  number, an array, an object). Of the other values the route uses only whether they
  are truthy and what string they convert to; none of them has a \<^verbatim>\<open>trim\<close> method.
\<close>

datatype jsval = JStr string | JOther bool string

definition truthy :: "jsval \<Rightarrow> bool" where
  "truthy v = (case v of JStr s \<Rightarrow> s \<noteq> [] | JOther t _ \<Rightarrow> t)"

definition toStr :: "jsval \<Rightarrow> string" where
  "toStr v = (case v of JStr s \<Rightarrow> s | JOther _ s \<Rightarrow> s)"

definition isWhiteSpace :: "char \<Rightarrow> bool" where
  \<comment> \<open>the white space and line terminators below code unit 256\<close>
  "isWhiteSpace c = (of_char c \<in> {9, 10, 11, 12, 13, 32, 160 :: nat})"

definition trim :: "string \<Rightarrow> string" where
  "trim s = rev (dropWhile isWhiteSpace (rev (dropWhile isWhiteSpace s)))"

definition blank :: "jsval \<Rightarrow> bool" where
  \<comment> \<open>an empty or whitespace-only string\<close>
  "blank v = (case v of JStr s \<Rightarrow> list_all isWhiteSpace s | JOther _ _ \<Rightarrow> False)"

subsection \<open>Rate limiter\<close>

type_synonym limiter = "string \<times> string \<Rightarrow> nat list"

datatype rate_decision = Allowed | Rejected

definition checkRateLimit ::
  "limiter \<Rightarrow> string \<Rightarrow> string \<Rightarrow> nat \<Rightarrow> nat \<Rightarrow> nat \<Rightarrow> rate_decision \<times> limiter" where
  \<comment> \<open>Modelled from the spec: \<^verbatim>\<open>checkRateLimit\<close> of \<^verbatim>\<open>lib/security/rate-limit\<close> is not
      among the sources. The spec gives a per-IP rate limit of 5 per 10 minutes under
      which the 6th request within 10 minutes is rejected: per bucket and IP address the
      limiter keeps the times (in ms) of the requests it let through, counts those of the
      last \<open>windowMs\<close> and lets a request through while they are fewer than \<open>limit\<close>.\<close>
  "checkRateLimit store ip bucket limit windowMs now =
     (let recent = filter (\<lambda>t. now < t + windowMs) (store (bucket, ip))
      in if length recent < limit then (Allowed, store((bucket, ip) := recent @ [now]))
         else (Rejected, store((bucket, ip) := recent)))"

subsection \<open>Database\<close>

record suggestion_row =
  row_id :: string
  row_agenda_id :: string
  row_user_id :: string
  row_content :: string
  row_author_name :: string
  row_status :: string
  row_created_at :: nat

datatype lookup = Found string | NoRow | QueryError

text \<open>
  \<open>agenda_by_sequence n\<close> is the answer to the query for the agenda with
  \<^verbatim>\<open>sequence_id = n\<close> under \<^verbatim>\<open>.single()\<close>: the id of the one row, no row (error code
  PGRST116), or another error. \<open>policy\<close> is the row-level security filter for reading
  suggestions.
\<close>

record database =
  agenda_by_sequence :: "nat \<Rightarrow> lookup"
  agenda_title :: "string \<Rightarrow> string option"
  auto_approve_suggestions :: "bool option"
  suggestions :: "suggestion_row list"
  policy :: "suggestion_row \<Rightarrow> bool"

subsection \<open>Agenda identifiers\<close>

definition digitValue :: "char \<Rightarrow> nat" where
  "digitValue c = of_char c - 48"

definition parseInt :: "string \<Rightarrow> nat" where
  \<comment> \<open>\<^verbatim>\<open>Number.parseInt\<close> on a string of decimal digits\<close>
  "parseInt s = foldl (\<lambda>n c. 10 * n + digitValue c) 0 s"

definition getOrCreateAgendaUUID :: "database \<Rightarrow> string \<Rightarrow> string option" where
  \<comment> \<open>\<open>None\<close> is the \<^verbatim>\<open>null\<close> returned when the query fails\<close>
  "getOrCreateAgendaUUID d manifestoId =
     (let manifestoNumber = replace_str ''manifesto-'' [] manifestoId
      in case agenda_by_sequence d (parseInt manifestoNumber) of
           QueryError \<Rightarrow> None
         | Found existing \<Rightarrow> Some existing
         | NoRow \<Rightarrow> Some (generateDeterministicUUID manifestoId))"

record validation =
  isValid :: bool
  normalizedId :: string
  agendaUUID :: "string option"
  validation_error :: "string option"

definition validateAndNormalizeAgendaId :: "database \<Rightarrow> string \<Rightarrow> validation" where
  "validateAndNormalizeAgendaId d ident =
     (if isValidUUID ident then
        \<lparr>isValid = True, normalizedId = ident, agendaUUID = Some ident, validation_error = None\<rparr>
      else if isRawInteger ident then
        \<lparr>isValid = True, normalizedId = toManifestoFormat ident,
         agendaUUID = getOrCreateAgendaUUID d (toManifestoFormat ident), validation_error = None\<rparr>
      else if isManifestoFormat ident then
        \<lparr>isValid = True, normalizedId = ident,
         agendaUUID = getOrCreateAgendaUUID d ident, validation_error = None\<rparr>
      else
        \<lparr>isValid = False, normalizedId = ident, agendaUUID = None,
         validation_error =
           Some ''Invalid ID format. Expected UUID, integer, or manifesto-{number} format.''\<rparr>)"

definition usable :: "validation \<Rightarrow> bool" where
  \<comment> \<open>the negation of \<^verbatim>\<open>!validation.isValid || !validation.agendaUUID\<close>\<close>
  "usable v = (isValid v \<and> (case agendaUUID v of None \<Rightarrow> False | Some u \<Rightarrow> u \<noteq> []))"

definition validation_message :: "validation \<Rightarrow> string" where
  \<comment> \<open>\<^verbatim>\<open>validation.error || "Invalid agenda ID"\<close>\<close>
  "validation_message v =
     (case validation_error v of
        None \<Rightarrow> ''Invalid agenda ID''
      | Some e \<Rightarrow> if e = [] then ''Invalid agenda ID'' else e)"

subsection \<open>Responses\<close>

record public_suggestion =
  pub_id :: string
  pub_content :: string
  pub_author_name :: string
  pub_created_at :: nat

datatype response =
    ErrorResponse nat string
  | RateLimited
  | SuggestionList "public_suggestion list" string
  | Created suggestion_row bool

text \<open>
  \<open>ErrorResponse status message\<close> is \<^verbatim>\<open>NextResponse.json({ error: message }, { status })\<close>,
  \<open>RateLimited\<close> is the response the rate limiter hands back, and the last two are the
  responses with status 200.
\<close>

subsection \<open>GET\<close>

record get_request =
  agenda_id_param :: "string option"  \<comment> \<open>\<^verbatim>\<open>searchParams.get("agenda_id")\<close>\<close>
  select_fails :: bool  \<comment> \<open>the query for the suggestions answers with an error\<close>

definition publicView :: "suggestion_row \<Rightarrow> public_suggestion" where
  \<comment> \<open>the selected columns: id, content, author\_name, created\_at\<close>
  "publicView r =
     \<lparr>pub_id = row_id r, pub_content = row_content r,
      pub_author_name = row_author_name r, pub_created_at = row_created_at r\<rparr>"

definition selectApproved :: "database \<Rightarrow> string \<Rightarrow> suggestion_row list" where
  \<comment> \<open>\<^verbatim>\<open>.eq("agenda_id", queryId).eq("status", "approved")\<close>, newest first\<close>
  "selectApproved d queryId =
     array_sort (\<lambda>a b. int (row_created_at b) - int (row_created_at a))
       (filter (\<lambda>r. policy d r \<and> row_agenda_id r = queryId \<and> row_status r = ''approved'')
          (suggestions d))"

definition GET :: "database \<Rightarrow> get_request \<Rightarrow> response" where
  "GET d req =
     (case agenda_id_param req of
        None \<Rightarrow> ErrorResponse 400 ''agenda_id parameter is required''
      | Some agendaId \<Rightarrow>
          if agendaId = [] then ErrorResponse 400 ''agenda_id parameter is required''
          else
            let validation = validateAndNormalizeAgendaId d agendaId
            in if \<not> usable validation then ErrorResponse 400 (validation_message validation)
               else
                 (case agendaUUID validation of
                    None \<Rightarrow> ErrorResponse 400 (validation_message validation)
                  | Some queryId \<Rightarrow>
                      if select_fails req then ErrorResponse 500 ''Database error''
                      else SuggestionList (map publicView (selectApproved d queryId)) queryId))"

subsection \<open>POST\<close>

text \<open>
  Of a request the model keeps what the route reads: whether \<^verbatim>\<open>isAllowedOrigin\<close> accepts
  it, the IP address and the arrival time the rate limiter uses, the answer of the auth
  service, the fields \<^verbatim>\<open>agenda_id\<close>, \<^verbatim>\<open>content\<close> and \<^verbatim>\<open>author_name\<close> of the parsed body
  (\<open>None\<close> when reading the body throws; an absent field is a falsy value), whether the
  insert answers with an error, and the id the database gives the new row. Creating the
  database client is taken to succeed.
\<close>

record post_request =
  origin_allowed :: bool
  client_ip :: string
  arrival :: nat
  auth_error :: bool
  auth_user :: "string option"
  body :: "(jsval \<times> jsval \<times> jsval) option"
  insert_fails :: bool
  new_row_id :: string

record server =
  limiter_store :: limiter
  data :: database

datatype effect =
  GetUser | ReadBody | ValidateAgenda | SelectTitle | SelectSettings | InsertSuggestion
  | ScheduleEmail

definition submitSuggestion :: "server \<Rightarrow> post_request \<Rightarrow> response \<times> effect list \<times> server" where
  \<comment> \<open>\<^verbatim>\<open>POST\<close> from \<^verbatim>\<open>createClient()\<close> on; the list holds the calls made, in order\<close>
  "submitSuggestion sv req =
     (if auth_error req then (ErrorResponse 401 ''Authentication failed'', [GetUser], sv)
      else case auth_user req of
        None \<Rightarrow> (ErrorResponse 401 ''User not authenticated'', [GetUser], sv)
      | Some uid \<Rightarrow>
        (case body req of
           None \<Rightarrow> (ErrorResponse 500 ''Internal server error'', [GetUser, ReadBody], sv)
         | Some (agenda_id, content_field, author_field) \<Rightarrow>
             if \<not> truthy agenda_id then
               (ErrorResponse 400 ''agenda_id is required'', [GetUser, ReadBody], sv)
             else if \<not> truthy content_field then
               (ErrorResponse 400 ''content is required'', [GetUser, ReadBody], sv)
             else case content_field of
               JOther _ _ \<Rightarrow> (ErrorResponse 500 ''Internal server error'', [GetUser, ReadBody], sv)
             | JStr c \<Rightarrow>
             if trim c = [] then
               (ErrorResponse 400 ''content is required'', [GetUser, ReadBody], sv)
             else if \<not> truthy author_field then
               (ErrorResponse 400 ''author_name is required'', [GetUser, ReadBody], sv)
             else case author_field of
               JOther _ _ \<Rightarrow> (ErrorResponse 500 ''Internal server error'', [GetUser, ReadBody], sv)
             | JStr a \<Rightarrow>
             if trim a = [] then
               (ErrorResponse 400 ''author_name is required'', [GetUser, ReadBody], sv)
             else
               let validation = validateAndNormalizeAgendaId (data sv) (toStr agenda_id)
               in if \<not> usable validation then
                    (ErrorResponse 400 (validation_message validation),
                     [GetUser, ReadBody, ValidateAgenda], sv)
                  else case agendaUUID validation of
                    None \<Rightarrow>
                      (ErrorResponse 400 (validation_message validation),
                       [GetUser, ReadBody, ValidateAgenda], sv)
                  | Some queryId \<Rightarrow>
                      let autoApprove = (auto_approve_suggestions (data sv) = Some True);
                          calls = [GetUser, ReadBody, ValidateAgenda, SelectTitle,
                                   SelectSettings, InsertSuggestion]
                      in if insert_fails req then
                           (ErrorResponse 500 ''Failed to create suggestion'', calls, sv)
                         else
                           let suggestion =
                                 \<lparr>row_id = new_row_id req, row_agenda_id = queryId,
                                  row_user_id = uid, row_content = trim c,
                                  row_author_name = trim a,
                                  row_status = (if autoApprove then ''approved'' else ''pending''),
                                  row_created_at = arrival req\<rparr>;
                               d = data sv
                           in (Created suggestion autoApprove, calls @ [ScheduleEmail],
                               sv\<lparr>data := d\<lparr>suggestions := suggestions d @ [suggestion]\<rparr>\<rparr>)))"

definition POST :: "server \<Rightarrow> post_request \<Rightarrow> response \<times> effect list \<times> server" where
  "POST sv req =
     (if \<not> origin_allowed req then (ErrorResponse 403 ''Forbidden'', [], sv)
      else
        case checkRateLimit (limiter_store sv) (client_ip req) ''suggestion-create'' 5
               (10 * 60 * 1000) (arrival req) of
          (Rejected, store') \<Rightarrow> (RateLimited, [], sv\<lparr>limiter_store := store'\<rparr>)
        | (Allowed, store') \<Rightarrow> submitSuggestion (sv\<lparr>limiter_store := store'\<rparr>) req)"

fun run_posts :: "server \<Rightarrow> post_request list \<Rightarrow> (response \<times> effect list \<times> server) list" where
  \<comment> \<open>requests handled one after the other, each on the state the one before left\<close>
  "run_posts sv [] = []"
| "run_posts sv (req # reqs) = POST sv req # run_posts (snd (snd (POST sv req))) reqs"

definition is_string :: "jsval \<Rightarrow> bool" where
  "is_string v = (case v of JStr _ \<Rightarrow> True | JOther _ _ \<Rightarrow> False)"

definition passes_limiter :: "server \<Rightarrow> post_request \<Rightarrow> bool" where
  \<comment> \<open>the rate limiter lets the request through\<close>
  "passes_limiter sv req =
     (fst (checkRateLimit (limiter_store sv) (client_ip req) ''suggestion-create'' 5
             (10 * 60 * 1000) (arrival req)) = Allowed)"

section \<open>Example inputs\<close>

subsection \<open>Client side\<close>

text \<open>The items of the worked example: A with 5 likes and 1 dislike, B with 3 likes.\<close>

definition example_item :: "string \<Rightarrow> suggestion" where
  "example_item name =
     \<lparr>suggestion_id = name, content = [], author_name = [], created_at = 0, user_id = []\<rparr>"

definition example_counts :: "string \<Rightarrow> counts option" where
  "example_counts =
     [''A'' \<mapsto> \<lparr>likes = 5, dislikes = 1\<rparr>, ''B'' \<mapsto> \<lparr>likes = 3, dislikes = 0\<rparr>]"

definition tied_counts :: "string \<Rightarrow> counts option" where
  \<comment> \<open>X with one like and one dislike, Y without votes: both have net score 0\<close>
  "tied_counts = [''X'' \<mapsto> \<lparr>likes = 1, dislikes = 1\<rparr>]"

text \<open>A vote state with one suggestion \<open>s1\<close>, liked by the user, with the given counts.\<close>

definition liked_state :: "int \<Rightarrow> int \<Rightarrow> vote_state" where
  "liked_state l d =
     \<lparr>userVotes = [''s1'' \<mapsto> Like], voteCounts = [''s1'' \<mapsto> \<lparr>likes = l, dislikes = d\<rparr>]\<rparr>"

subsection \<open>Server side\<close>

definition configured_env :: environment where
  "configured_env =
     \<lparr>supabaseUrl = Some ''https://db.example'', supabaseAnonKey = Some ''anon-key''\<rparr>"

definition unconfigured_env :: environment where
  "unconfigured_env = \<lparr>supabaseUrl = None, supabaseAnonKey = None\<rparr>"

definition example_roles :: "string \<Rightarrow> string option" where
  "example_roles = [''u-admin'' \<mapsto> ''admin'', ''u-plain'' \<mapsto> ''user'']"

definition admin_request :: "string option \<Rightarrow> middleware_request" where
  "admin_request u = \<lparr>pathname = ''/api/admin/users'', session_user = u, session_error = False\<rparr>"

definition example_agenda :: string where
  "example_agenda = ''0a1b2c3d-0001-4000-8000-0a1b2c3d0000''"

definition example_row :: "string \<Rightarrow> string \<Rightarrow> nat \<Rightarrow> suggestion_row" where
  "example_row ident st created =
     \<lparr>row_id = ident, row_agenda_id = example_agenda, row_user_id = ''u-plain'',
      row_content = ''more buses'', row_author_name = ''Asha'', row_status = st,
      row_created_at = created\<rparr>"

definition example_database :: database where
  "example_database =
     \<lparr>agenda_by_sequence = (\<lambda>n. NoRow), agenda_title = (\<lambda>u. None),
      auto_approve_suggestions = Some False,
      suggestions = [example_row ''s-1'' ''approved'' 10, example_row ''s-2'' ''pending'' 20],
      policy = (\<lambda>r. True)\<rparr>"

definition example_get :: get_request where
  "example_get = \<lparr>agenda_id_param = Some example_agenda, select_fails = False\<rparr>"

definition fresh_server :: server where
  "fresh_server = \<lparr>limiter_store = (\<lambda>k. []), data = example_database\<rparr>"

definition example_post :: "bool \<Rightarrow> nat \<Rightarrow> string option \<Rightarrow> string \<Rightarrow> post_request" where
  "example_post allowed t user text =
     \<lparr>origin_allowed = allowed, client_ip = ''203.0.113.7'', arrival = t,
      auth_error = False, auth_user = user,
      body = Some (JStr example_agenda, JStr text, JStr ''Asha''),
      insert_fails = False, new_row_id = ''s-3''\<rparr>"

definition six_requests :: "post_request list" where
  \<comment> \<open>six requests of one IP address within five seconds, all passing the origin check\<close>
  "six_requests =
     [example_post True 0 None [], example_post True 1000 None [],
      example_post True 2000 None [], example_post True 3000 None [],
      example_post True 4000 None [], example_post True 5000 None []]"

definition six_requests_first_blocked :: "post_request list" where
  \<comment> \<open>the same six requests, the first failing the origin check\<close>
  "six_requests_first_blocked =
     [example_post False 0 None [], example_post True 1000 None [],
      example_post True 2000 None [], example_post True 3000 None [],
      example_post True 4000 None [], example_post True 5000 None []]"

section \<open>Properties of the identifier helpers\<close>

lemma toManifestoFormat_raw: "isRawInteger n \<Longrightarrow> toManifestoFormat n = ''manifesto-'' @ n"
  by (simp add: toManifestoFormat_def)

text \<open>
  Claim C1. For a raw integer identifier \<open>n\<close> (a non-empty string of decimal digits),
  \<open>toManifestoFormat n\<close> is \<open>manifesto-\<close> followed by \<open>n\<close>; and
  \<open>generateDeterministicUUID\<close> is a function of its argument alone: it reads no state,
  so equal inputs give equal outputs.
\<close>

theorem C1_toManifestoFormat_and_determinism:
  "isRawInteger n \<Longrightarrow>
     toManifestoFormat n = ''manifesto-'' @ n
     \<and> (let first = generateDeterministicUUID s; second = generateDeterministicUUID s
        in second = first)"
  by (simp add: toManifestoFormat_raw)

theorem C1_witness:
  "isRawInteger ''7'' \<and> toManifestoFormat ''7'' = ''manifesto-7''
   \<and> (let first = generateDeterministicUUID ''manifesto-7'';
           second = generateDeterministicUUID ''manifesto-7''
       in second = first)"
proof -
  have h: "isRawInteger ''7''" by (simp add: isRawInteger_def isDigit_def)
  from C1_toManifestoFormat_and_determinism [OF h, of "''manifesto-7''"] h
  show ?thesis by simp
qed

subsection \<open>Shape of the generated identifier\<close>

lemma isHex_hexDigit: "d < 16 \<Longrightarrow> isHex (hexDigit d)"
  unfolding isHex_def hexDigit_def by (auto simp: eval_nat_numeral less_Suc_eq)

lemma toString16_hex: "list_all isHex (toString16 n)"
proof (induction n rule: toString16.induct)
  case (1 n)
  show ?case
  proof (cases "n < 16")
    case True
    then show ?thesis by (simp add: toString16.simps [of n] isHex_hexDigit)
  next
    case False
    with 1 show ?thesis by (simp add: toString16.simps [of n] isHex_hexDigit)
  qed
qed

lemma toString16_length: "0 < k \<Longrightarrow> n < 16 ^ k \<Longrightarrow> length (toString16 n) \<le> k"
proof (induction n arbitrary: k rule: toString16.induct)
  case (1 n)
  show ?case
  proof (cases "n < 16")
    case True
    with 1 show ?thesis by (simp add: toString16.simps [of n])
  next
    case False
    obtain j where k: "k = Suc j" using 1(2) by (cases k) auto
    have "j \<noteq> 0" using False 1(3) k by (cases j) auto
    moreover have "n div 16 < 16 ^ j" using 1(3) k
      by (simp add: less_mult_imp_div_less mult.commute)
    ultimately have "length (toString16 (n div 16)) \<le> j" using 1(1)[OF False, of j] by simp
    with False k show ?thesis by (simp add: toString16.simps [of n])
  qed
qed

lemma abs_sint32: "nat \<bar>sint (w :: 32 word)\<bar> < 16 ^ 8"
proof -
  have "- (2 ^ 31) \<le> sint w" "sint w < 2 ^ 31"
    using sint_ge [of w] sint_lt [of w] by simp_all
  then show ?thesis by simp
qed

lemma replace_manifesto: "replace_str ''manifesto-'' [] (''manifesto-'' @ ds) = ds"
  by simp

lemma isDigit_isHex: "isDigit c \<Longrightarrow> isHex c"
  by (auto simp: isDigit_def isHex_def)

lemma isHex_zero: "isHex (CHR ''0'')"
  by (simp add: isHex_def)

lemma list_all_padStart:
  "P c \<Longrightarrow> list_all P s \<Longrightarrow> list_all P (padStart s n c)"
  by (auto simp: padStart_def list_all_iff)

lemma hex_shape:
  fixes w :: "32 word"
  defines "hex \<equiv> padStart (toString16 (nat \<bar>sint w\<bar>)) 8 (CHR ''0'')"
  shows "length hex = 8 \<and> list_all isHex hex"
proof -
  have "length (toString16 (nat \<bar>sint w\<bar>)) \<le> 8"
    by (rule toString16_length [OF _ abs_sint32]) simp
  then have "length hex = 8" unfolding hex_def padStart_def by simp
  moreover have "list_all isHex hex"
    unfolding hex_def by (rule list_all_padStart [OF isHex_zero toString16_hex])
  ultimately show ?thesis by simp
qed

lemma replicate4: "replicate 4 c = [c, c, c, c]"
  by (simp add: numeral_eq_Suc)

lemma substring_hex8:
  assumes "length h = 8"
  shows "substring h 0 8 = h" "substring h 8 11 = []" "substring h 0 12 = h"
    "padEnd h 12 c = h @ [c, c, c, c]"
  using assms by (simp_all add: substring_def padEnd_def replicate4)

lemma generate_shape:
  "\<exists>hex. length hex = 8 \<and> list_all isHex hex \<and>
     generateDeterministicUUID (''manifesto-'' @ ds) =
       hex @ ''-'' @ padStart ds 4 (CHR ''0'') @ ''-4000-8000-'' @ hex @ ''0000''"
proof -
  define hex where "hex = padStart (toString16 (nat \<bar>sint (hashLoop 0 (''agenda-'' @ ''manifesto-'' @ ds))\<bar>)) 8 (CHR ''0'')"
  have hs: "length hex = 8" "list_all isHex hex" using hex_shape unfolding hex_def by blast+
  have "generateDeterministicUUID (''manifesto-'' @ ds) =
       hex @ ''-'' @ padStart ds 4 (CHR ''0'') @ ''-4000-8000-'' @ hex @ ''0000''"
    unfolding generateDeterministicUUID_def Let_def hex_def [symmetric] replace_manifesto
      substring_hex8 [OF hs(1)]
    by simp
  with hs show ?thesis by blast
qed

lemma testClasses_append:
  "testClasses a s \<Longrightarrow> testClasses b t \<Longrightarrow> testClasses (a @ b) (s @ t)"
  unfolding testClasses_def by (rule list_all2_appendI)

lemma testClasses_replicate:
  "list_all P s \<Longrightarrow> length s = n \<Longrightarrow> testClasses (replicate n P) s"
  unfolding testClasses_def by (induction s arbitrary: n) auto

lemma testClasses_length: "testClasses cls s \<Longrightarrow> length s = length cls"
  unfolding testClasses_def by (simp add: list_all2_lengthD)

lemma length_uuidRegex: "length uuidRegex = 36"
  by (simp add: uuidRegex_def)

lemma uuid_fixed_part: "testClasses ([isHyphen] @ [isVersionDigit] @ replicate 3 isHex @ [isHyphen]
     @ [isVariantDigit] @ replicate 3 isHex @ [isHyphen]) ''-4000-8000-''"
  by (simp add: testClasses_def isHyphen_def isVersionDigit_def isVariantDigit_def isHex_def
      numeral_eq_Suc)

lemma uuid_tail_part:
  assumes "length hex = 8" "list_all isHex hex"
  shows "testClasses (replicate 12 isHex) (hex @ ''0000'')"
proof (rule testClasses_replicate)
  show "list_all isHex (hex @ ''0000'')" using assms(2) by (simp add: isHex_def)
  show "length (hex @ ''0000'') = 12" using assms(1) by simp
qed

lemma uuid_assembled:
  assumes "length hex = 8" "list_all isHex hex" "length num = 4" "list_all isHex num"
  shows "isValidUUID (hex @ ''-'' @ num @ ''-4000-8000-'' @ hex @ ''0000'')"
proof -
  have 1: "testClasses (replicate 8 isHex) hex"
    using assms by (simp add: testClasses_replicate)
  have 2: "testClasses [isHyphen] ''-''"
    by (simp add: testClasses_def isHyphen_def)
  have 3: "testClasses (replicate 4 isHex) num"
    using assms by (simp add: testClasses_replicate)
  note 4 = uuid_fixed_part
  note 5 = uuid_tail_part [OF assms(1,2)]
  have "testClasses (replicate 8 isHex @ [isHyphen] @ replicate 4 isHex
      @ ([isHyphen] @ [isVersionDigit] @ replicate 3 isHex @ [isHyphen]
         @ [isVariantDigit] @ replicate 3 isHex @ [isHyphen]) @ replicate 12 isHex)
      (hex @ ''-'' @ num @ ''-4000-8000-'' @ hex @ ''0000'')"
    by (intro testClasses_append 1 2 3 4 5)
  then show ?thesis by (simp add: isValidUUID_def uuidRegex_def)
qed

lemma generate_valid_iff:
  assumes "list_all isDigit ds"
  shows "isValidUUID (generateDeterministicUUID (''manifesto-'' @ ds)) \<longleftrightarrow> length ds \<le> 4"
proof -
  obtain hex where hex: "length hex = 8" "list_all isHex hex"
    and gen: "generateDeterministicUUID (''manifesto-'' @ ds) =
       hex @ ''-'' @ padStart ds 4 (CHR ''0'') @ ''-4000-8000-'' @ hex @ ''0000''"
    using generate_shape by blast
  have digits: "list_all isHex ds"
    using assms by (auto simp: list_all_iff isDigit_isHex)
  show ?thesis
  proof
    assume valid: "isValidUUID (generateDeterministicUUID (''manifesto-'' @ ds))"
    have "length (hex @ ''-'' @ padStart ds 4 (CHR ''0'') @ ''-4000-8000-'' @ hex @ ''0000'')
        = length uuidRegex"
      by (rule testClasses_length [OF valid [unfolded gen isValidUUID_def]])
    then show "length ds \<le> 4" using hex(1) by (simp add: length_uuidRegex padStart_def)
  next
    assume short: "length ds \<le> 4"
    have "length (padStart ds 4 (CHR ''0'')) = 4" using short by (simp add: padStart_def)
    moreover have "list_all isHex (padStart ds 4 (CHR ''0''))"
      by (rule list_all_padStart [OF isHex_zero digits])
    ultimately show "isValidUUID (generateDeterministicUUID (''manifesto-'' @ ds))"
      unfolding gen by (rule uuid_assembled [OF hex])
  qed
qed

lemma hash_12345: "hashLoop 0 (''agenda-'' @ ''manifesto-12345'') = - 399927163"
  by simp

lemma hex_12345: "toString16 399927163 = ''17d6677b''"
  by (simp add: toString16.simps hexDigit_def)

lemma number_12345: "replace_str ''manifesto-'' [] ''manifesto-12345'' = ''12345''"
  by simp

text \<open>
  Claim C7. For every input \<open>manifesto-<n>\<close> with \<open>n\<close> a decimal integer, the string returned
  by \<open>generateDeterministicUUID\<close> is accepted by \<open>isValidUUID\<close>. The code misses this
  for numbers of five digits or more: \<open>manifesto-12345\<close> has the manifesto format, and
  its generated identifier has a second group of five characters, which the regular
  expression of \<open>isValidUUID\<close> rejects.
\<close>

theorem C7_generated_uuid_rejected:
  "isManifestoFormat ''manifesto-12345''
   \<and> generateDeterministicUUID ''manifesto-12345'' = ''17d6677b-12345-4000-8000-17d6677b0000''
   \<and> \<not> isValidUUID (generateDeterministicUUID ''manifesto-12345'')"
proof -
  have fmt: "isManifestoFormat ''manifesto-12345''"
    by (simp add: isManifestoFormat_def isDigit_def)
  have gen: "generateDeterministicUUID ''manifesto-12345'' = ''17d6677b-12345-4000-8000-17d6677b0000''"
    unfolding generateDeterministicUUID_def Let_def hash_12345 number_12345
    by (simp add: hex_12345 padStart_def padEnd_def substring_def replicate4)
  have "\<not> isValidUUID ''17d6677b-12345-4000-8000-17d6677b0000''"
  proof
    assume "isValidUUID ''17d6677b-12345-4000-8000-17d6677b0000''"
    then have "length ''17d6677b-12345-4000-8000-17d6677b0000'' = length uuidRegex"
      unfolding isValidUUID_def by (rule testClasses_length)
    then show False by (simp add: length_uuidRegex)
  qed
  with fmt gen show ?thesis by simp
qed

section \<open>Properties of the popularity sort\<close>

lemma mset_insert_cmp: "mset (insert_cmp compare x ys) = add_mset x (mset ys)"
  by (induction ys) auto

lemma mset_array_sort: "mset (array_sort compare xs) = mset xs"
  unfolding array_sort_def by (induction xs) (auto simp: mset_insert_cmp)

lemma set_insert_cmp: "set (insert_cmp compare x ys) = insert x (set ys)"
  by (induction ys) auto

lemma sorted_insert_cmp:
  assumes total: "\<And>a b. compare a b \<le> 0 \<or> compare b a \<le> 0"
    and trans: "\<And>a b c. compare a b \<le> 0 \<Longrightarrow> compare b c \<le> 0 \<Longrightarrow> compare a c \<le> 0"
    and sorted: "sorted_wrt (\<lambda>a b. compare a b \<le> 0) ys"
  shows "sorted_wrt (\<lambda>a b. compare a b \<le> 0) (insert_cmp compare x ys)"
  using sorted
proof (induction ys)
  case Nil
  then show ?case by simp
next
  case (Cons y ys)
  show ?case
  proof (cases "compare x y \<le> 0")
    case True
    have "\<forall>z\<in>set ys. compare x z \<le> 0"
      using Cons.prems True trans by auto
    with True Cons.prems show ?thesis by simp
  next
    case False
    then have "compare y x \<le> 0" using total [of x y] by simp
    with False Cons show ?thesis by (auto simp: set_insert_cmp)
  qed
qed

lemma sorted_array_sort:
  assumes "\<And>a b. compare a b \<le> 0 \<or> compare b a \<le> 0"
    and "\<And>a b c. compare a b \<le> 0 \<Longrightarrow> compare b c \<le> 0 \<Longrightarrow> compare a c \<le> 0"
  shows "sorted_wrt (\<lambda>a b. compare a b \<le> 0) (array_sort compare xs)"
  unfolding array_sort_def
proof (induction xs)
  case Nil
  show ?case by simp
next
  case (Cons x xs)
  show ?case using sorted_insert_cmp [OF assms Cons] by simp
qed

lemma popularity_le:
  "compareSuggestions Popularity a b \<le> 0 \<longleftrightarrow>
     netScore b < netScore a \<or> (netScore a = netScore b \<and> totalEngagement b \<le> totalEngagement a)"
  by (auto simp: compareSuggestions_def)

lemma popularity_sorted:
  "sorted_wrt (\<lambda>a b. netScore b < netScore a
        \<or> (netScore a = netScore b \<and> totalEngagement b \<le> totalEngagement a))
     (sortedSuggestions Popularity vc xs)"
proof -
  have "sorted_wrt (\<lambda>a b. compareSuggestions Popularity a b \<le> 0)
     (array_sort (compareSuggestions Popularity) (map (withScore vc) xs))"
  proof (rule sorted_array_sort)
    fix a b :: suggestion_with_score
    show "compareSuggestions Popularity a b \<le> 0 \<or> compareSuggestions Popularity b a \<le> 0"
      unfolding popularity_le by linarith
  next
    fix a b c :: suggestion_with_score
    assume "compareSuggestions Popularity a b \<le> 0" "compareSuggestions Popularity b c \<le> 0"
    then show "compareSuggestions Popularity a c \<le> 0"
      unfolding popularity_le by linarith
  qed
  then show ?thesis by (simp add: sortedSuggestions_def popularity_le)
qed

lemma withScore_id [simp]: "suggestion_id (withScore vc s) = suggestion_id s"
  by (simp add: withScore_def suggestion.defs Let_def)

lemma withScore_net: "netScore (withScore vc s) =
   (case vc (suggestion_id s) of None \<Rightarrow> 0 | Some c \<Rightarrow> likes c - dislikes c)"
  by (simp add: withScore_def suggestion.defs Let_def split: option.split)

lemma withScore_total: "totalEngagement (withScore vc s) =
   (case vc (suggestion_id s) of None \<Rightarrow> 0 | Some c \<Rightarrow> likes c + dislikes c)"
  by (simp add: withScore_def suggestion.defs Let_def split: option.split)

lemma example_scores:
  "netScore (withScore example_counts (example_item ''A'')) = 4"
  "netScore (withScore example_counts (example_item ''B'')) = 3"
  by (simp_all add: withScore_net example_counts_def example_item_def)

lemma example_order:
  "map suggestion_id (sortedSuggestions Popularity example_counts [example_item ''A'', example_item ''B''])
     = [''A'', ''B'']"
  "map suggestion_id (sortedSuggestions Popularity example_counts [example_item ''B'', example_item ''A''])
     = [''A'', ''B'']"
  by (simp_all add: sortedSuggestions_def array_sort_def compareSuggestions_def example_scores)
     (simp_all add: example_item_def)

text \<open>
  Claim C3. For every list of suggestions and every table of vote counts, the list sorted
  by popularity has non-increasing net score (likes minus dislikes), and of two items with
  the same net score the one with the larger total engagement (likes plus dislikes) comes
  first; the sorted list is a rearrangement of the scored input. For A with 5 likes and
  1 dislike and B with 3 likes the order is A, B, whichever comes first in the input.
\<close>

theorem C3_popularity_order:
  "sorted_wrt (\<lambda>a b. netScore b < netScore a
        \<or> (netScore a = netScore b \<and> totalEngagement b \<le> totalEngagement a))
     (sortedSuggestions Popularity vc xs)
   \<and> mset (sortedSuggestions Popularity vc xs) = mset (map (withScore vc) xs)
   \<and> map suggestion_id
        (sortedSuggestions Popularity example_counts [example_item ''A'', example_item ''B''])
       = [''A'', ''B'']
   \<and> map suggestion_id
        (sortedSuggestions Popularity example_counts [example_item ''B'', example_item ''A''])
       = [''A'', ''B'']"
  using popularity_sorted [of vc xs] example_order
  by (simp add: sortedSuggestions_def mset_array_sort)

lemma sortedData_score_sorted:
  "sorted_wrt (\<lambda>a b. itemScore m (item_id b) \<le> itemScore m (item_id a))
     (sortedData item_id m xs)"
proof (cases "xs = []")
  case True
  then show ?thesis by (simp add: sortedData_def)
next
  case False
  have "sorted_wrt (\<lambda>a b. itemScore m (item_id b) - itemScore m (item_id a) \<le> 0)
     (array_sort (\<lambda>a b. itemScore m (item_id b) - itemScore m (item_id a)) xs)"
    by (rule sorted_array_sort) linarith+
  with False show ?thesis by (simp add: sortedData_def)
qed

lemma sortedData_mset: "mset (sortedData item_id m xs) = mset xs"
  by (simp add: sortedData_def mset_array_sort)

text \<open>
  The manifesto list compares net scores only: two items with the same net score keep
  their input order, whatever their total engagement.
\<close>

lemma sortedData_keeps_ties:
  "sortedData (\<lambda>item. item) tied_counts [''Y'', ''X''] = [''Y'', ''X'']"
  by (simp add: sortedData_def array_sort_def itemScore_def tied_counts_def)

section \<open>Properties of the optimistic vote update\<close>

lemma handleVote_same:
  assumes "userVotes st ident = Some v"
  shows "userVotes (handleVote True ident v st) ident = None"
    and "currentCounts (handleVote True ident v st) ident =
          (case v of
             Like \<Rightarrow> \<lparr>likes = max 0 (likes (currentCounts st ident) - 1),
                      dislikes = max 0 (dislikes (currentCounts st ident))\<rparr>
           | Dislike \<Rightarrow> \<lparr>likes = max 0 (likes (currentCounts st ident)),
                      dislikes = max 0 (dislikes (currentCounts st ident) - 1)\<rparr>)"
  using assms by (simp_all add: handleVote_def currentCounts_def Let_def split: vote.split)

lemma handleVote_other:
  assumes "userVotes st ident \<noteq> Some v"
  shows "userVotes (handleVote True ident v st) ident = Some v"
  using assms by (simp add: handleVote_def Let_def)

lemma handleVote_switch:
  assumes "userVotes st ident = Some (opposite v)"
  shows "currentCounts (handleVote True ident v st) ident =
          (case v of
             Like \<Rightarrow> \<lparr>likes = max 0 (likes (currentCounts st ident) + 1),
                      dislikes = max 0 (dislikes (currentCounts st ident) - 1)\<rparr>
           | Dislike \<Rightarrow> \<lparr>likes = max 0 (likes (currentCounts st ident) - 1),
                      dislikes = max 0 (dislikes (currentCounts st ident) + 1)\<rparr>)"
  using assms by (simp add: handleVote_def currentCounts_def Let_def opposite_def split: vote.split)

lemma handleVote_fresh:
  assumes "userVotes st ident = None"
  shows "currentCounts (handleVote True ident v st) ident =
          (case v of
             Like \<Rightarrow> \<lparr>likes = max 0 (likes (currentCounts st ident) + 1),
                      dislikes = max 0 (dislikes (currentCounts st ident))\<rparr>
           | Dislike \<Rightarrow> \<lparr>likes = max 0 (likes (currentCounts st ident)),
                      dislikes = max 0 (dislikes (currentCounts st ident) + 1)\<rparr>)"
  using assms by (simp add: handleVote_def currentCounts_def Let_def split: vote.split)

lemma handleVote_frame:
  assumes "other \<noteq> ident"
  shows "userVotes (handleVote user ident v st) other = userVotes st other"
    and "voteCounts (handleVote user ident v st) other = voteCounts st other"
  using assms by (simp_all add: handleVote_def Let_def split: prod.split)

lemma countOf_simps [simp]:
  "countOf Like c = likes c" "countOf Dislike c = dislikes c"
  "opposite Like = Dislike" "opposite Dislike = Like"
  by (simp_all add: countOf_def opposite_def)

lemma not_same_not_opposite:
  "x \<noteq> Some v \<Longrightarrow> x \<noteq> Some (opposite v) \<Longrightarrow> x = None"
proof (cases x)
  case None
  then show ?thesis by simp
next
  case (Some a)
  assume "x \<noteq> Some v" "x \<noteq> Some (opposite v)"
  with Some show ?thesis by (cases a; cases v) (simp_all add: opposite_def)
qed

text \<open>
  Claim C2, as stated, fails where the count to be decreased is already zero: the update
  writes \<open>max 0\<close> of each count. Un-liking a suggestion whose like count is 0 leaves
  the count at 0.
\<close>

theorem C2_counterexample:
  "userVotes (liked_state 0 0) ''s1'' = Some Like
   \<and> likes (currentCounts (handleVote True ''s1'' Like (liked_state 0 0)) ''s1'')
       \<noteq> likes (currentCounts (liked_state 0 0) ''s1'') - 1"
  by (simp add: liked_state_def handleVote_def currentCounts_def)

text \<open>
  Claim C2, amended. For a logged-in user and non-negative counts: if the current vote
  equals the clicked type, the new vote is null and that type's count decreases by one,
  staying at zero when it is zero, the other count unchanged; if the current vote is the
  opposite type, the new vote is the clicked type, the old type's count decreases by one,
  staying at zero when it is zero, and the clicked type's count increases by exactly one;
  if there was no vote, the new vote is the clicked type and only its count increases,
  by exactly one.
\<close>

theorem C2_toggle_clamped:
  assumes "0 \<le> likes (currentCounts st ident)" and "0 \<le> dislikes (currentCounts st ident)"
  shows "let c = currentCounts st ident;
             st' = handleVote True ident v st;
             c' = currentCounts st' ident
         in (if userVotes st ident = Some v then
               userVotes st' ident = None
               \<and> countOf v c' = max 0 (countOf v c - 1)
               \<and> countOf (opposite v) c' = countOf (opposite v) c
             else if userVotes st ident = Some (opposite v) then
               userVotes st' ident = Some v
               \<and> countOf (opposite v) c' = max 0 (countOf (opposite v) c - 1)
               \<and> countOf v c' = countOf v c + 1
             else
               userVotes st' ident = Some v
               \<and> countOf v c' = countOf v c + 1
               \<and> countOf (opposite v) c' = countOf (opposite v) c)"
proof (cases "userVotes st ident = Some v")
  case True
  with assms show ?thesis
    by (cases v) (simp_all add: handleVote_same Let_def)
next
  case False
  note not_same = this
  show ?thesis
  proof (cases "userVotes st ident = Some (opposite v)")
    case True
    with assms not_same show ?thesis
      by (cases v) (simp_all add: handleVote_switch handleVote_other Let_def)
  next
    case False
    with not_same have "userVotes st ident = None" by (rule not_same_not_opposite)
    with assms show ?thesis
      by (cases v) (simp_all add: handleVote_fresh handleVote_other Let_def)
  qed
qed

theorem C2_witness:
  "0 \<le> likes (currentCounts (liked_state 2 1) ''s1'')
   \<and> 0 \<le> dislikes (currentCounts (liked_state 2 1) ''s1'')
   \<and> userVotes (handleVote True ''s1'' Like (liked_state 2 1)) ''s1'' = None
   \<and> likes (currentCounts (handleVote True ''s1'' Like (liked_state 2 1)) ''s1'') = 1
   \<and> dislikes (currentCounts (handleVote True ''s1'' Like (liked_state 2 1)) ''s1'') = 1
   \<and> userVotes (handleVote True ''s1'' Dislike (liked_state 2 1)) ''s1'' = Some Dislike
   \<and> likes (currentCounts (handleVote True ''s1'' Dislike (liked_state 2 1)) ''s1'') = 1
   \<and> dislikes (currentCounts (handleVote True ''s1'' Dislike (liked_state 2 1)) ''s1'') = 2"
proof -
  have c: "currentCounts (liked_state 2 1) ''s1'' = \<lparr>likes = 2, dislikes = 1\<rparr>"
    and u: "userVotes (liked_state 2 1) ''s1'' = Some Like"
    by (simp_all add: liked_state_def currentCounts_def)
  have h1: "0 \<le> likes (currentCounts (liked_state 2 1) ''s1'')"
    and h2: "0 \<le> dislikes (currentCounts (liked_state 2 1) ''s1'')"
    by (simp_all add: c)
  from C2_toggle_clamped [OF h1 h2, of Like] C2_toggle_clamped [OF h1 h2, of Dislike] h1 h2
  show ?thesis by (simp add: c u Let_def)
qed

section \<open>Properties of the seeded shuffle\<close>

lemma jsRemainder_range:
  assumes "0 \<le> x" and "0 < m"
  shows "0 \<le> jsRemainder x m" and "jsRemainder x m < m"
proof -
  have q: "0 \<le> x / m" using assms by simp
  have le: "of_int \<lfloor>x / m\<rfloor> \<le> x / m" and lt: "x / m < of_int \<lfloor>x / m\<rfloor> + 1"
    by linarith+
  have mdiv: "m * (x / m) = x" using assms(2) by simp
  have "m * of_int \<lfloor>x / m\<rfloor> \<le> m * (x / m)"
    using le assms(2) by (intro mult_left_mono) simp_all
  then have low: "m * of_int \<lfloor>x / m\<rfloor> \<le> x" by (simp only: mdiv)
  then show "0 \<le> jsRemainder x m" using q by (simp add: jsRemainder_def)
  have "m * (x / m) < m * (of_int \<lfloor>x / m\<rfloor> + 1)"
    using lt assms(2) by (intro mult_strict_left_mono) simp_all
  then have "x < m * (of_int \<lfloor>x / m\<rfloor> + 1)" by (simp only: mdiv)
  then show "jsRemainder x m < m" using q by (simp add: jsRemainder_def algebra_simps)
qed

lemma shuffleIndex_range:
  assumes "0 \<le> scaled"
  shows "0 \<le> shuffleIndex scaled (Suc m)" and "nat (shuffleIndex scaled (Suc m)) \<le> m"
proof -
  have pos: "0 < real (Suc m)" by simp
  note r = jsRemainder_range [OF assms pos]
  show "0 \<le> shuffleIndex scaled (Suc m)" using r(1) by (simp add: shuffleIndex_def)
  have "\<lfloor>jsRemainder scaled (real (Suc m))\<rfloor> < int (Suc m)"
    using r(2) by (simp add: floor_less_iff)
  then show "nat (shuffleIndex scaled (Suc m)) \<le> m" by (simp add: shuffleIndex_def)
qed

lemma shuffleLoop_permutes:
  assumes "0 \<le> scaled" and "m \<le> length xs"
  shows "\<exists>out. shuffleLoop scaled m xs = Some out \<and> mset out = mset xs"
  using assms(2)
proof (induction m arbitrary: xs)
  case 0
  then show ?case by simp
next
  case (Suc m)
  define i where "i = nat (shuffleIndex scaled (Suc m))"
  have i: "0 \<le> shuffleIndex scaled (Suc m)" "i \<le> m"
    using shuffleIndex_range [OF assms(1), of m] by (simp_all add: i_def)
  have m: "m < length xs" using Suc.prems by simp
  with i have il: "i < length xs" by simp
  define ys where "ys = xs[m := xs ! i, i := xs ! m]"
  have "mset ys = mset xs" unfolding ys_def using m il by (simp add: mset_swap)
  moreover have "m \<le> length ys" using m by (simp add: ys_def)
  ultimately obtain out where "shuffleLoop scaled m ys = Some out" "mset out = mset xs"
    using Suc.IH [of ys] by auto
  moreover have "shuffleLoop scaled (Suc m) xs = shuffleLoop scaled m ys"
    using i m il by (simp add: Let_def ys_def i_def)
  ultimately show ?case by simp
qed

text \<open>
  Claim C9. For every seed and every input list the seeded shuffle returns a permutation
  of its input: the output has the same length and the same multiset of elements. The
  output is a function of the seed and the input alone, so for a fixed seed two runs on
  the same input give the same order. Seeds come from \<^verbatim>\<open>Math.random()\<close>, so
  the rounded product \<^verbatim>\<open>randomSeed * 1000000\<close> is not negative.
\<close>

theorem C9_shuffle_is_permutation:
  assumes "0 \<le> round_double (seed * 1000000)"
  shows "\<exists>out. shuffledData round_double (Some seed) xs = Some out
           \<and> length out = length xs \<and> mset out = mset xs
           \<and> (let again = shuffledData round_double (Some seed) xs in again = Some out)"
proof (cases "xs = []")
  case True
  then show ?thesis by (simp add: shuffledData_def)
next
  case False
  obtain out where out: "shuffleLoop (round_double (seed * 1000000)) (length xs) xs = Some out"
    "mset out = mset xs"
    using shuffleLoop_permutes [OF assms, of "length xs" xs] by auto
  from out(2) have "length out = length xs" by (rule mset_eq_length)
  with out False show ?thesis by (simp add: shuffledData_def)
qed

theorem C9_witness:
  "0 \<le> (\<lambda>x. x) ((1 / 2) * 1000000 :: real)
   \<and> shuffledData (\<lambda>x. x) (Some (1 / 2)) [1, 2, 3 :: nat] = Some [2, 1, 3]
   \<and> mset [2, 1, 3 :: nat] = mset [1, 2, 3]"
proof -
  have h: "0 \<le> (\<lambda>x. x) ((1 / 2) * 1000000 :: real)" by simp
  have i3: "shuffleIndex 500000 3 = 2" and i2: "shuffleIndex 500000 2 = 0"
    and i1: "shuffleIndex 500000 1 = 0"
    by (simp_all add: shuffleIndex_def jsRemainder_def)
  have run: "shuffledData (\<lambda>x. x) (Some (1 / 2)) [1, 2, 3 :: nat] = Some [2, 1, 3]"
    by (simp add: shuffledData_def numeral_3_eq_3 i3 [unfolded numeral_3_eq_3]
        i2 [unfolded numeral_2_eq_2] i1 [unfolded One_nat_def])
  from C9_shuffle_is_permutation [of "\<lambda>x. x" "1 / 2" "[1, 2, 3 :: nat]"] run h
  show ?thesis by simp
qed

lemma shuffledData_null: "shuffledData round_double None xs = Some xs"
  by (simp add: shuffledData_def)

section \<open>Properties of the testimonials pagination\<close>

lemma effectiveLimit_cases:
  "effectiveLimit p =
     (case finite_value p of None \<Rightarrow> 50 | Some x \<Rightarrow> if x \<le> 0 then 50 else min x 200)"
  by (cases p) (simp_all add: effectiveLimit_def finite_value_def DEFAULT_LIMIT_def)

lemma effectiveOffset_cases:
  "effectiveOffset p =
     (case finite_value p of None \<Rightarrow> 0 | Some x \<Rightarrow> if x < 0 then 0 else x)"
  by (cases p) (simp_all add: effectiveOffset_def finite_value_def)

lemma effectiveLimit_bounds: "0 < effectiveLimit p" "effectiveLimit p \<le> 200"
  by (cases p; simp add: effectiveLimit_def DEFAULT_LIMIT_def)+

lemma effectiveLimit_whole: "1 \<le> effectiveLimit (Finite (of_int n))"
proof (cases "0 < n")
  case True
  then have "(1::real) \<le> of_int n" by linarith
  with True show ?thesis by (simp add: effectiveLimit_def)
next
  case False
  then show ?thesis by (simp add: effectiveLimit_def DEFAULT_LIMIT_def)
qed

lemma effectiveOffset_nonneg: "0 \<le> effectiveOffset p"
  by (cases p) (simp_all add: effectiveOffset_def)

text \<open>
  Claim C10, as stated, fails for a positive limit below 1: for \<^verbatim>\<open>?limit=0.5\<close> the
  parameter converts to the number 0.5, which is finite and positive, and the limit used
  is 0.5, not a value between 1 and 200.
\<close>

theorem C10_counterexample:
  "effectiveLimit (Finite (1 / 2)) = 1 / 2 \<and> \<not> 1 \<le> effectiveLimit (Finite (1 / 2))"
  by (simp add: effectiveLimit_def)

text \<open>
  Claim C10, amended. The limit used in the query is 50 when the limit parameter is
  absent, does not convert to a finite number, or is not positive, and the smaller of the
  parameter and 200 otherwise; it is always greater than 0 and at most 200, and at least 1
  when the parameter is a whole number. The offset used is 0 when the offset parameter is
  absent, does not convert to a finite number, or is negative, and the parameter's value
  otherwise; it is never negative. The query asks for the rows from the offset to
  offset + limit - 1.
\<close>

theorem C10_pagination_clamped:
  "(let limitParam = Number_param toNumber limitQ;
        offsetParam = Number_param toNumber offsetQ;
        limit = effectiveLimit limitParam;
        offset = effectiveOffset offsetParam
    in limit = (case finite_value limitParam of
                  None \<Rightarrow> 50
                | Some x \<Rightarrow> if x \<le> 0 then 50 else min x 200)
       \<and> 0 < limit \<and> limit \<le> 200
       \<and> offset = (case finite_value offsetParam of
                     None \<Rightarrow> 0
                   | Some x \<Rightarrow> if x < 0 then 0 else x)
       \<and> 0 \<le> offset
       \<and> queryRange toNumber limitQ offsetQ = (offset, offset + limit - 1))
   \<and> effectiveLimit (Number_param toNumber None) = 50
   \<and> effectiveOffset (Number_param toNumber None) = 0
   \<and> 1 \<le> effectiveLimit (Finite (of_int n))"
  using effectiveLimit_cases effectiveOffset_cases effectiveLimit_bounds
    effectiveOffset_nonneg effectiveLimit_whole [of n]
  by (simp add: Let_def queryRange_def Number_param_def effectiveLimit_def
      effectiveOffset_def DEFAULT_LIMIT_def)

section \<open>Properties of the middleware\<close>

text \<open>
  Claim C5, as stated, fails when the Supabase URL or the anon key is not configured: the
  middleware then forwards every request, also an admin request without a user.
\<close>

theorem C5_counterexample:
  "startsWith (pathname (admin_request None)) ''/api/admin''
   \<and> session_user (admin_request None) = None
   \<and> middleware unconfigured_env example_roles (admin_request None) = Forward"
  by (simp add: middleware_def unconfigured_env_def admin_request_def startsWith_def unset_def)

text \<open>
  Claim C5, amended. When the Supabase URL and the anon key are configured, for every
  request whose path begins with \<^verbatim>\<open>/api/admin\<close> the middleware answers 401 when the auth
  service reports an error or no user, answers 403 when the user's profile role is not
  \<open>admin\<close> (also when there is no profile), and forwards the request exactly when
  there is a user without auth error whose role is \<open>admin\<close>.
\<close>

theorem C5_admin_gate:
  assumes "\<not> unset (supabaseUrl env)" and "\<not> unset (supabaseAnonKey env)"
    and "startsWith (pathname req) ''/api/admin''"
  shows "middleware env profile_role req =
           (case session_user req of
              None \<Rightarrow> Reply 401 ''Unauthorized''
            | Some uid \<Rightarrow>
                if session_error req then Reply 401 ''Unauthorized''
                else if profile_role uid = Some ''admin'' then Forward
                else Reply 403 ''Forbidden'')
         \<and> (middleware env profile_role req = Forward) =
             (\<not> session_error req
              \<and> (\<exists>uid. session_user req = Some uid \<and> profile_role uid = Some ''admin''))"
  using assms by (auto simp: middleware_def split: option.splits bool.splits)

theorem C5_witness:
  "\<not> unset (supabaseUrl configured_env) \<and> \<not> unset (supabaseAnonKey configured_env)
   \<and> startsWith (pathname (admin_request None)) ''/api/admin''
   \<and> middleware configured_env example_roles (admin_request None) = Reply 401 ''Unauthorized''
   \<and> middleware configured_env example_roles (admin_request (Some ''u-plain''))
       = Reply 403 ''Forbidden''
   \<and> middleware configured_env example_roles (admin_request (Some ''u-admin'')) = Forward"
proof -
  have h1: "\<not> unset (supabaseUrl configured_env)"
    and h2: "\<not> unset (supabaseAnonKey configured_env)"
    by (simp_all add: configured_env_def unset_def)
  have h3: "startsWith (pathname (admin_request u)) ''/api/admin''" for u
    by (simp add: admin_request_def startsWith_def)
  have f: "session_user (admin_request u) = u" "session_error (admin_request u) = False" for u
    by (simp_all add: admin_request_def)
  note gate = C5_admin_gate [where env = configured_env and profile_role = example_roles,
      OF h1 h2 h3]
  from gate [of None] gate [of "Some ''u-plain''"] gate [of "Some ''u-admin''"]
    h1 h2 h3 [of None]
  show ?thesis by (simp add: f example_roles_def)
qed

section \<open>Properties of the suggestions route\<close>

lemma set_array_sort: "set (array_sort compare xs) = set xs"
  by (metis mset_array_sort set_mset_mset)

lemma selectApproved_rows:
  "r \<in> set (selectApproved d q) \<longleftrightarrow>
     r \<in> set (suggestions d) \<and> policy d r \<and> row_agenda_id r = q \<and> row_status r = ''approved''"
  by (auto simp: selectApproved_def set_array_sort)

lemma GET_list:
  assumes "GET d req = SuggestionList out q"
  shows "out = map publicView (selectApproved d q)"
  using assms
  by (auto simp: GET_def Let_def split: option.splits if_splits)

text \<open>
  Claim C8. Every suggestion in a successful response of GET is the public view of a row
  of the suggestions table whose status is \<open>approved\<close> (and whose agenda is the one
  asked for); with row ids unique, no row of another status, such as \<open>pending\<close>, has its
  id in the response.
\<close>

theorem C8_only_approved:
  assumes "GET d req = SuggestionList out q" and "distinct (map row_id (suggestions d))"
  shows "(\<forall>s\<in>set out. \<exists>r\<in>set (suggestions d).
            publicView r = s \<and> row_status r = ''approved'' \<and> row_agenda_id r = q)
         \<and> (\<forall>r\<in>set (suggestions d). row_status r = ''approved'' \<or> row_id r \<notin> pub_id ` set out)"
proof -
  note out = GET_list [OF assms(1)]
  have 1: "\<forall>s\<in>set out. \<exists>r\<in>set (suggestions d).
            publicView r = s \<and> row_status r = ''approved'' \<and> row_agenda_id r = q"
    unfolding out by (auto simp: selectApproved_rows)
  have 2: "row_status r = ''approved'' \<or> row_id r \<notin> pub_id ` set out"
    if r: "r \<in> set (suggestions d)" for r
  proof (cases "row_id r \<in> pub_id ` set out")
    case False
    then show ?thesis by simp
  next
    case True
    then obtain r' where r': "r' \<in> set (selectApproved d q)" "row_id r' = row_id r"
      unfolding out by (auto simp: publicView_def)
    then have "r' \<in> set (suggestions d)" "row_status r' = ''approved''"
      by (simp_all add: selectApproved_rows)
    moreover from assms(2) r this(1) r'(2) have "r' = r"
      by (auto simp: distinct_map dest: inj_onD)
    ultimately show ?thesis by simp
  qed
  from 1 2 show ?thesis by blast
qed

lemma example_agenda_valid: "isValidUUID example_agenda"
  by (simp add: isValidUUID_def testClasses_def uuidRegex_def example_agenda_def numeral_eq_Suc
      isHex_def isHyphen_def isVersionDigit_def isVariantDigit_def)

lemma example_get_result:
  "GET example_database example_get =
     SuggestionList [publicView (example_row ''s-1'' ''approved'' 10)] example_agenda"
proof -
  have v: "validateAndNormalizeAgendaId example_database example_agenda =
      \<lparr>isValid = True, normalizedId = example_agenda, agendaUUID = Some example_agenda,
       validation_error = None\<rparr>"
    by (simp add: validateAndNormalizeAgendaId_def example_agenda_valid)
  have ne: "example_agenda \<noteq> []" by (simp add: example_agenda_def)
  have sel: "selectApproved example_database example_agenda = [example_row ''s-1'' ''approved'' 10]"
    by (simp add: selectApproved_def example_database_def example_row_def array_sort_def)
  show ?thesis
    by (simp add: GET_def example_get_def v usable_def ne sel)
qed

theorem C8_witness:
  "GET example_database example_get =
     SuggestionList [publicView (example_row ''s-1'' ''approved'' 10)] example_agenda
   \<and> distinct (map row_id (suggestions example_database))
   \<and> example_row ''s-2'' ''pending'' 20 \<in> set (suggestions example_database)
   \<and> ''s-2'' \<notin> pub_id ` set [publicView (example_row ''s-1'' ''approved'' 10)]"
proof -
  have d: "distinct (map row_id (suggestions example_database))"
    by (simp add: example_database_def example_row_def)
  have m: "example_row ''s-2'' ''pending'' 20 \<in> set (suggestions example_database)"
    by (simp add: example_database_def)
  have p: "row_status (example_row ''s-2'' ''pending'' 20) \<noteq> ''approved''"
    "row_id (example_row ''s-2'' ''pending'' 20) = ''s-2''"
    by (simp_all add: example_row_def)
  from C8_only_approved [OF example_get_result d] m p
  have "''s-2'' \<notin> pub_id ` set [publicView (example_row ''s-1'' ''approved'' 10)]"
    by metis
  with example_get_result d m show ?thesis by simp
qed

subsection \<open>Submitting a suggestion\<close>

lemma trim_blank: "list_all isWhiteSpace s \<Longrightarrow> trim s = []"
proof -
  assume "list_all isWhiteSpace s"
  then have d: "dropWhile isWhiteSpace s = []"
    by (induction s) simp_all
  show ?thesis unfolding trim_def d by simp
qed

lemma blank_cases:
  assumes "blank v"
  obtains s where "v = JStr s" "trim s = []"
  using assms by (cases v) (auto simp: blank_def trim_blank)

lemma submit_keeps_limiter:
  "limiter_store (snd (snd (submitSuggestion sv req))) = limiter_store sv"
  by (simp add: submitSuggestion_def Let_def split: option.split jsval.split prod.split)

lemma submit_blank:
  assumes "body req = Some (aid, c, a)" and "blank c \<or> blank a"
  shows "snd (snd (submitSuggestion sv req)) = sv"
    and "set (fst (snd (submitSuggestion sv req))) \<subseteq> {GetUser, ReadBody}"
proof -
  from assms(2) have "(\<exists>s. c = JStr s \<and> trim s = []) \<or> (\<exists>s. a = JStr s \<and> trim s = [])"
    by (auto elim: blank_cases)
  then show "snd (snd (submitSuggestion sv req)) = sv"
    and "set (fst (snd (submitSuggestion sv req))) \<subseteq> {GetUser, ReadBody}"
    using assms(1)
    by (auto simp: submitSuggestion_def Let_def split: option.split jsval.split)
qed

lemma submit_blank_400:
  assumes "body req = Some (aid, JStr c, JStr a)" and "blank (JStr c) \<or> blank (JStr a)"
    and "\<not> auth_error req" and "auth_user req = Some uid"
  shows "\<exists>msg. fst (submitSuggestion sv req) = ErrorResponse 400 msg"
proof -
  from assms(2) have "trim c = [] \<or> trim a = []"
    by (auto simp: blank_def trim_blank)
  then show ?thesis using assms(1,3,4)
    by (auto simp: submitSuggestion_def Let_def truthy_def)
qed

lemma POST_blank:
  assumes "body req = Some (aid, c, a)" and "blank c \<or> blank a"
  shows "data (snd (snd (POST sv req))) = data sv"
    and "set (fst (snd (POST sv req))) \<subseteq> {GetUser, ReadBody}"
proof -
  obtain dec store' where rl: "checkRateLimit (limiter_store sv) (client_ip req)
      ''suggestion-create'' 5 600000 (arrival req) = (dec, store')"
    by (cases "checkRateLimit (limiter_store sv) (client_ip req)
      ''suggestion-create'' 5 600000 (arrival req)")
  note sb = submit_blank [OF assms, of "sv\<lparr>limiter_store := store'\<rparr>"]
  show "data (snd (snd (POST sv req))) = data sv"
    using sb(1) by (cases dec) (simp_all add: POST_def rl)
  show "set (fst (snd (POST sv req))) \<subseteq> {GetUser, ReadBody}"
    using sb(2) by (cases dec) (simp_all add: POST_def rl)
qed

lemma POST_passed:
  assumes "origin_allowed req" and "passes_limiter sv req"
  shows "fst (POST sv req) =
     fst (submitSuggestion (sv\<lparr>limiter_store := snd (checkRateLimit (limiter_store sv)
        (client_ip req) ''suggestion-create'' 5 600000 (arrival req))\<rparr>) req)"
  using assms by (auto simp: POST_def passes_limiter_def split: prod.split rate_decision.split)

text \<open>
  Claim C4, as stated, fails for a request that is stopped before its body is read: a
  request without a user and with an empty content field is answered with 401, not 400.
\<close>

theorem C4_counterexample:
  "body (example_post True 0 None []) = Some (JStr example_agenda, JStr [], JStr ''Asha'')
   \<and> blank (JStr [])
   \<and> fst (POST fresh_server (example_post True 0 None []))
       = ErrorResponse 401 ''User not authenticated''"
  by (simp add: POST_def submitSuggestion_def example_post_def fresh_server_def
      checkRateLimit_def blank_def)

text \<open>
  Claim C4, amended. For every POST request whose body has an empty or whitespace-only
  content field, or an empty or whitespace-only author\_name field, the route performs
  no database insert: it issues no insert and leaves the database as it was. It returns
  status 400 when the request passes the origin check, the rate limiter and
  authentication and its content field is a string.
\<close>

theorem C4_blank_fields_rejected:
  assumes "body req = Some (aid, c, a)" and "blank c \<or> blank a"
  shows "data (snd (snd (POST sv req))) = data sv
         \<and> InsertSuggestion \<notin> set (fst (snd (POST sv req)))
         \<and> (origin_allowed req \<and> passes_limiter sv req \<and> \<not> auth_error req
              \<and> auth_user req \<noteq> None \<and> is_string c
            \<longrightarrow> (\<exists>msg. fst (POST sv req) = ErrorResponse 400 msg))"
proof -
  note pb = POST_blank [OF assms, of sv]
  have "\<exists>msg. fst (POST sv req) = ErrorResponse 400 msg"
    if g: "origin_allowed req" "passes_limiter sv req" "\<not> auth_error req"
      "auth_user req \<noteq> None" "is_string c"
  proof -
    obtain uid where uid: "auth_user req = Some uid" using g(4) by auto
    obtain cs where cs: "c = JStr cs" using g(5) by (cases c) (simp_all add: is_string_def)
    have "\<exists>as. a = JStr as" if "\<not> blank c"
      using that assms(2) by (cases a) (simp_all add: blank_def)
    show ?thesis
    proof (cases "blank c")
      case True
      then have "trim cs = []" by (simp add: cs blank_def trim_blank)
      then show ?thesis
        unfolding POST_passed [OF g(1,2)] using assms(1) g(3) uid cs
        by (simp add: submitSuggestion_def truthy_def)
    next
      case False
      with assms(2) obtain as where as: "a = JStr as" "blank a"
        by (cases a) (simp_all add: blank_def)
      show ?thesis
        unfolding POST_passed [OF g(1,2)]
        using submit_blank_400 [OF assms(1) [unfolded cs as(1)] _ g(3) uid] as cs
        by simp
    qed
  qed
  with pb show ?thesis by auto
qed

theorem C4_witness:
  "body (example_post True 0 (Some ''u-plain'') ''  '')
     = Some (JStr example_agenda, JStr ''  '', JStr ''Asha'')
   \<and> blank (JStr ''  '')
   \<and> origin_allowed (example_post True 0 (Some ''u-plain'') ''  '')
   \<and> passes_limiter fresh_server (example_post True 0 (Some ''u-plain'') ''  '')
   \<and> \<not> auth_error (example_post True 0 (Some ''u-plain'') ''  '')
   \<and> auth_user (example_post True 0 (Some ''u-plain'') ''  '') \<noteq> None
   \<and> is_string (JStr ''  '')
   \<and> data (snd (snd (POST fresh_server (example_post True 0 (Some ''u-plain'') ''  ''))))
       = data fresh_server
   \<and> InsertSuggestion
       \<notin> set (fst (snd (POST fresh_server (example_post True 0 (Some ''u-plain'') ''  ''))))
   \<and> (\<exists>msg. fst (POST fresh_server (example_post True 0 (Some ''u-plain'') ''  ''))
          = ErrorResponse 400 msg)"
proof -
  let ?req = "example_post True 0 (Some ''u-plain'') ''  ''"
  have b: "body ?req = Some (JStr example_agenda, JStr ''  '', JStr ''Asha'')"
    by (simp add: example_post_def)
  have bl: "blank (JStr ''  '')" by (simp add: blank_def isWhiteSpace_def)
  have g: "origin_allowed ?req" "passes_limiter fresh_server ?req" "\<not> auth_error ?req"
    "auth_user ?req \<noteq> None" "is_string (JStr ''  '')"
    by (simp_all add: example_post_def passes_limiter_def fresh_server_def checkRateLimit_def
        is_string_def)
  from C4_blank_fields_rejected [OF b disjI1 [OF bl], of fresh_server] b bl g
  show ?thesis by simp
qed

subsection \<open>Rate limiting\<close>

lemma checkRateLimit_in_window:
  assumes inv: "\<forall>t\<in>set (store (b, ip)). t + w \<le> t1 \<or> t1 \<le> t"
    and now: "t1 \<le> now" "now < t1 + w"
  shows "checkRateLimit store ip b limit w now =
     (if length (filter (\<lambda>t. t1 \<le> t) (store (b, ip))) < limit
      then (Allowed, store((b, ip) := filter (\<lambda>t. t1 \<le> t) (store (b, ip)) @ [now]))
      else (Rejected, store((b, ip) := filter (\<lambda>t. t1 \<le> t) (store (b, ip)))))"
proof -
  have "filter (\<lambda>t. now < t + w) (store (b, ip)) = filter (\<lambda>t. t1 \<le> t) (store (b, ip))"
  proof (rule filter_cong [OF refl])
    fix t
    assume "t \<in> set (store (b, ip))"
    with inv have "t + w \<le> t1 \<or> t1 \<le> t" by blast
    with now show "(now < t + w) = (t1 \<le> t)" by auto
  qed
  then show ?thesis by (simp add: checkRateLimit_def Let_def)
qed

lemma submit_not_limited: "fst (submitSuggestion sv req) \<noteq> RateLimited"
  by (simp add: submitSuggestion_def Let_def split: option.split jsval.split prod.split)

lemma POST_limited:
  assumes "fst (POST sv req) = RateLimited"
  shows "fst (snd (POST sv req)) = []" and "data (snd (snd (POST sv req))) = data sv"
proof -
  obtain dec store' where rl: "checkRateLimit (limiter_store sv) (client_ip req)
      ''suggestion-create'' 5 600000 (arrival req) = (dec, store')"
    by (cases "checkRateLimit (limiter_store sv) (client_ip req)
      ''suggestion-create'' 5 600000 (arrival req)")
  have "origin_allowed req \<and> dec = Rejected"
    using assms submit_not_limited [of "sv\<lparr>limiter_store := store'\<rparr>" req]
    by (cases dec; cases "origin_allowed req") (simp_all add: POST_def rl)
  then show "fst (snd (POST sv req)) = []" and "data (snd (snd (POST sv req))) = data sv"
    by (simp_all add: POST_def rl)
qed

lemma POST_in_window:
  assumes inv: "\<forall>t\<in>set (limiter_store sv (''suggestion-create'', ip)). t + 600000 \<le> t1 \<or> t1 \<le> t"
    and req: "origin_allowed req" "client_ip req = ip" "t1 \<le> arrival req"
      "arrival req < t1 + 600000"
  defines "live \<equiv> filter (\<lambda>t. t1 \<le> t) (limiter_store sv (''suggestion-create'', ip))"
  shows "(fst (POST sv req) = RateLimited) = (5 \<le> length live)"
    and "limiter_store (snd (snd (POST sv req))) (''suggestion-create'', ip) =
           (if length live < 5 then live @ [arrival req] else live)"
proof -
  note rl = checkRateLimit_in_window [where store = "limiter_store sv"
      and b = "''suggestion-create''" and ip = ip and w = 600000 and ?t1.0 = t1
      and now = "arrival req" and limit = 5, OF inv req(3,4), folded live_def]
  show "(fst (POST sv req) = RateLimited) = (5 \<le> length live)"
    using req(1,2) submit_not_limited
    by (auto simp: POST_def rl)
  show "limiter_store (snd (snd (POST sv req))) (''suggestion-create'', ip) =
           (if length live < 5 then live @ [arrival req] else live)"
    using req(1,2) by (simp add: POST_def rl submit_keeps_limiter)
qed

lemma run_posts_in_window:
  assumes "\<forall>r\<in>set reqs. origin_allowed r \<and> client_ip r = ip \<and> t1 \<le> arrival r
      \<and> arrival r < t1 + 600000"
    and "\<forall>t\<in>set (limiter_store sv (''suggestion-create'', ip)). t + 600000 \<le> t1 \<or> t1 \<le> t"
    and "c = length (filter (\<lambda>t. t1 \<le> t) (limiter_store sv (''suggestion-create'', ip)))"
  shows "map (\<lambda>out. fst out = RateLimited) (run_posts sv reqs)
           = map (\<lambda>j. 5 \<le> c + j) [0..<length reqs]"
  using assms
proof (induction reqs arbitrary: sv c)
  case Nil
  then show ?case by simp
next
  case (Cons r rs)
  define live where "live = filter (\<lambda>t. t1 \<le> t) (limiter_store sv (''suggestion-create'', ip))"
  define sv' where "sv' = snd (snd (POST sv r))"
  have r: "origin_allowed r" "client_ip r = ip" "t1 \<le> arrival r" "arrival r < t1 + 600000"
    using Cons.prems(1) by simp_all
  note step = POST_in_window [OF Cons.prems(2) r, folded live_def sv'_def]
  have c: "c = length live" using Cons.prems(3) by (simp add: live_def)
  let ?c' = "if c < 5 then Suc c else c"
  have inv': "\<forall>t\<in>set (limiter_store sv' (''suggestion-create'', ip)). t + 600000 \<le> t1 \<or> t1 \<le> t"
    using step(2) r(3) by (auto simp: live_def)
  have c': "?c' = length (filter (\<lambda>t. t1 \<le> t) (limiter_store sv' (''suggestion-create'', ip)))"
    using step(2) r(3) c by (simp add: live_def)
  have rest: "\<forall>r\<in>set rs. origin_allowed r \<and> client_ip r = ip \<and> t1 \<le> arrival r
      \<and> arrival r < t1 + 600000"
    using Cons.prems(1) by simp
  have ih: "map (\<lambda>out. fst out = RateLimited) (run_posts sv' rs)
           = map (\<lambda>j. 5 \<le> ?c' + j) [0..<length rs]"
    by (rule Cons.IH [OF rest inv' c'])
  have shift: "[0..<length (r # rs)] = 0 # map Suc [0..<length rs]"
    by (simp add: upt_conv_Cons map_Suc_upt del: upt_Suc)
  have "map (\<lambda>j. 5 \<le> ?c' + j) [0..<length rs] = map (\<lambda>j. 5 \<le> c + Suc j) [0..<length rs]"
    by (rule map_cong) auto
  with ih step(1) c show ?case
    unfolding shift by (simp add: sv'_def [symmetric] comp_def)
qed

lemma run_posts_length: "length (run_posts sv reqs) = length reqs"
  by (induction reqs arbitrary: sv) simp_all

lemma run_posts_nth:
  assumes "i < length reqs"
  shows "run_posts sv reqs ! i =
     POST (if i = 0 then sv else snd (snd (run_posts sv reqs ! (i - 1)))) (reqs ! i)"
  using assms
proof (induction reqs arbitrary: sv i)
  case Nil
  then show ?case by simp
next
  case (Cons r rs)
  show ?case
  proof (cases i)
    case 0
    then show ?thesis by simp
  next
    case (Suc j)
    with Cons.prems have j: "j < length rs" by simp
    show ?thesis
    proof (cases j)
      case 0
      with Suc j Cons.IH [OF j, of "snd (snd (POST sv r))"] show ?thesis by simp
    next
      case (Suc k)
      with \<open>i = Suc j\<close> j Cons.IH [OF j, of "snd (snd (POST sv r))"] show ?thesis by simp
    qed
  qed
qed

lemma POST_example_unauthenticated:
  "POST sv (example_post True t None []) =
     (case checkRateLimit (limiter_store sv) ''203.0.113.7'' ''suggestion-create'' 5 600000 t of
        (Rejected, store') \<Rightarrow> (RateLimited, [], sv\<lparr>limiter_store := store'\<rparr>)
      | (Allowed, store') \<Rightarrow>
          (ErrorResponse 401 ''User not authenticated'', [GetUser], sv\<lparr>limiter_store := store'\<rparr>))"
  by (simp add: POST_def submitSuggestion_def example_post_def split: prod.split rate_decision.split)

lemma POST_example_blocked:
  "POST sv (example_post False t None []) = (ErrorResponse 403 ''Forbidden'', [], sv)"
  by (simp add: POST_def example_post_def)

text \<open>
  Claim C6, as stated, fails for a sequence in which a request does not pass the origin
  check: such a request is answered with 403 before the rate limiter is called and is
  not counted. Of six requests of one IP address within five seconds whose first fails
  the origin check, the sixth is not rejected by the rate limiter; it goes on to the
  authentication check.
\<close>

theorem C6_counterexample:
  "length six_requests_first_blocked = 6
   \<and> map client_ip six_requests_first_blocked = replicate 6 ''203.0.113.7''
   \<and> map arrival six_requests_first_blocked = [0, 1000, 2000, 3000, 4000, 5000]
   \<and> fst (run_posts fresh_server six_requests_first_blocked ! 5)
       = ErrorResponse 401 ''User not authenticated''"
proof -
  have "fst (run_posts fresh_server six_requests_first_blocked ! 5)
       = ErrorResponse 401 ''User not authenticated''"
    by (simp add: six_requests_first_blocked_def POST_example_unauthenticated
        POST_example_blocked fresh_server_def checkRateLimit_def)
  then show ?thesis
    by (simp add: six_requests_first_blocked_def example_post_def numeral_eq_Suc)
qed

text \<open>
  Claim C6, amended. For every sequence of POST requests from the same IP address that
  pass the origin check and arrive within one 10-minute window, with no request of that
  address counted in the 10 minutes before the window, the first 5 are not rejected by
  the rate limiter and the 6th and every later one is rejected by it, before any
  authentication check or other call is made and with the database left as it was.
\<close>

theorem C6_sixth_request_rejected:
  assumes "\<forall>r\<in>set reqs. origin_allowed r \<and> client_ip r = ip \<and> t1 \<le> arrival r
      \<and> arrival r < t1 + 600000"
    and "\<forall>t\<in>set (limiter_store sv (''suggestion-create'', ip)). t + 600000 \<le> t1"
    and "i < length reqs"
  shows "if 5 \<le> i
         then fst (run_posts sv reqs ! i) = RateLimited
              \<and> fst (snd (run_posts sv reqs ! i)) = []
              \<and> data (snd (snd (run_posts sv reqs ! i)))
                  = data (snd (snd (run_posts sv reqs ! (i - 1))))
         else fst (run_posts sv reqs ! i) \<noteq> RateLimited"
proof -
  have inv: "\<forall>t\<in>set (limiter_store sv (''suggestion-create'', ip)). t + 600000 \<le> t1 \<or> t1 \<le> t"
    using assms(2) by blast
  have "filter (\<lambda>t. t1 \<le> t) (limiter_store sv (''suggestion-create'', ip)) = []"
    using assms(2) by (auto simp: filter_empty_conv)
  then have c: "0 = length (filter (\<lambda>t. t1 \<le> t) (limiter_store sv (''suggestion-create'', ip)))"
    by simp
  have "map (\<lambda>out. fst out = RateLimited) (run_posts sv reqs) ! i
          = map (\<lambda>j. 5 \<le> 0 + j) [0..<length reqs] ! i"
    by (simp only: run_posts_in_window [OF assms(1) inv c])
  then have limited: "(fst (run_posts sv reqs ! i) = RateLimited) = (5 \<le> i)"
    using assms(3) by (simp add: run_posts_length)
  show ?thesis
  proof (cases "5 \<le> i")
    case False
    with limited show ?thesis by simp
  next
    case True
    then have "i \<noteq> 0" by simp
    with run_posts_nth [OF assms(3), of sv]
    have at: "run_posts sv reqs ! i = POST (snd (snd (run_posts sv reqs ! (i - 1)))) (reqs ! i)"
      by simp
    from limited True have "fst (run_posts sv reqs ! i) = RateLimited" by simp
    with POST_limited [of "snd (snd (run_posts sv reqs ! (i - 1)))" "reqs ! i"] at True
    show ?thesis by simp
  qed
qed

theorem C6_witness:
  "length six_requests = 6
   \<and> fst (run_posts fresh_server six_requests ! 4) \<noteq> RateLimited
   \<and> fst (run_posts fresh_server six_requests ! 5) = RateLimited
   \<and> fst (snd (run_posts fresh_server six_requests ! 5)) = []
   \<and> data (snd (snd (run_posts fresh_server six_requests ! 5)))
       = data (snd (snd (run_posts fresh_server six_requests ! 4)))"
proof -
  have h1: "\<forall>r\<in>set six_requests. origin_allowed r \<and> client_ip r = ''203.0.113.7''
      \<and> 0 \<le> arrival r \<and> arrival r < 0 + 600000"
    by (simp add: six_requests_def example_post_def)
  have h2: "\<forall>t\<in>set (limiter_store fresh_server (''suggestion-create'', ''203.0.113.7'')).
      t + 600000 \<le> 0"
    by (simp add: fresh_server_def)
  have len: "length six_requests = 6" by (simp add: six_requests_def)
  have h4: "4 < length six_requests" and h5: "5 < length six_requests"
    by (simp_all add: len)
  from C6_sixth_request_rejected [OF h1 h2 h4] C6_sixth_request_rejected [OF h1 h2 h5] len
  show ?thesis by simp
qed

end
